theory Spec2Isabelle
  imports Main "HOL-Library.Word"
begin

section \<open>Data model of cmdlinearg.hh\<close>

text \<open>
  A non-null \<^verbatim>\<open>const char*\<close> is the \<^typ>\<open>string\<close> of the bytes before its terminating
  NUL, so \<^verbatim>\<open>*x == '\0'\<close> is \<open>x = []\<close> and \<^verbatim>\<open>x + 1\<close> is \<open>tl x\<close>. A pointer that may
  be \<^verbatim>\<open>nullptr\<close> is a \<^typ>\<open>string option\<close>.

  The variable an option is bound to (\<^verbatim>\<open>T &v\<close>) lives outside the registry. It is an
  address into a store of typed values, so two options bound to one variable alias.
  The static type \<^verbatim>\<open>T\<close> of \<^verbatim>\<open>argObj<T>\<close> is the constructor of the stored value.
  \<^verbatim>\<open>float\<close> values are kept abstract (type \<open>'f\<close>), and \<^verbatim>\<open>std::strtof\<close> is a parameter
  \<open>sf\<close> that returns the value and the number of characters it consumed.
\<close>

datatype ty = TString | TInt | TFloat | TBool | TList ty

datatype 'f cval =
    VString string
  | VInt "32 word"
  | VFloat 'f
  | VBool bool
  | VList ty "'f cval list"

datatype 'a outcome = Undefined | Returns 'a

text \<open>\<^verbatim>\<open>struct argStrings\<close> with the \<^verbatim>\<open>seen\<close> flag of \<^verbatim>\<open>argObjBase\<close> and the reference
  \<^verbatim>\<open>v\<close> of \<^verbatim>\<open>argObj<T>\<close>; the fields \<^verbatim>\<open>s, l, h, d, v\<close> are \<open>arg_s, arg_l, arg_h, arg_d, var\<close>.\<close>

record argObj =
  arg_s :: "string option"
  arg_l :: "string option"
  arg_h :: "string option"
  arg_d :: "string option"
  seen :: bool
  var :: nat

datatype errorstate_e = ok | invalid | unknown

record errorState =
  state :: errorstate_e
  op :: "string option"
  val :: "string option"

text \<open>The template parameters of \<^verbatim>\<open>options<max_string_length, delims...>\<close>.\<close>

record config =
  max_string_length :: int
  delims :: "char list"

text \<open>The registry (\<^verbatim>\<open>std::forward_list<argObjBase*> options\<close>, front first) and the store
  of bound variables.\<close>

record 'f pstate =
  options :: "argObj list"
  vars :: "nat \<Rightarrow> 'f cval"

text \<open>An \<^verbatim>\<open>argObjBase*\<close>: the static \<^verbatim>\<open>noDefault\<close> object or a registered descriptor,
  named by its position in the registry.\<close>

datatype argref = NoDefault | ArgObj nat

section \<open>Type conversion\<close>

text \<open>\<^verbatim>\<open>std::strtol(s, &r, 0)\<close> in the C locale with a 64-bit \<^verbatim>\<open>long\<close>: the value and
  \<^verbatim>\<open>r - s\<close>. White space is skipped, then a sign, then the base is read off the prefix;
  without a digit nothing is converted and the value is 0; the value saturates.\<close>

definition isspace :: "char \<Rightarrow> bool" where
  "isspace c = (c \<in> set [CHR '' '', CHR 0x09, CHR 0x0A, CHR 0x0B, CHR 0x0C, CHR 0x0D])"

definition digit_val :: "char \<Rightarrow> nat" where
  "digit_val c =
     (let n = (of_char c :: nat) in
      if 48 \<le> n \<and> n \<le> 57 then n - 48
      else if 97 \<le> n \<and> n \<le> 122 then n - 87
      else if 65 \<le> n \<and> n \<le> 90 then n - 55
      else 36)"

definition LONG_MAX :: int where
  "LONG_MAX = 9223372036854775807"

definition LONG_MIN :: int where
  "LONG_MIN = - 9223372036854775808"

definition strtol :: "string \<Rightarrow> int \<times> nat" where
  "strtol s =
     (let s1 = dropWhile isspace s;
          neg = (case s1 of [] \<Rightarrow> False | c # _ \<Rightarrow> c = CHR ''-'');
          s2 = (case s1 of [] \<Rightarrow> [] | c # cs \<Rightarrow> if c = CHR ''-'' \<or> c = CHR ''+'' then cs else s1);
          hex = (case s2 of a # b # c # _ \<Rightarrow>
                   a = CHR ''0'' \<and> (b = CHR ''x'' \<or> b = CHR ''X'') \<and> digit_val c < 16
                 | _ \<Rightarrow> False);
          b = (if hex then 16 else case s2 of [] \<Rightarrow> 10 | c # _ \<Rightarrow> if c = CHR ''0'' then 8 else 10);
          s3 = (if hex then drop 2 s2 else s2);
          ds = takeWhile (\<lambda>c. digit_val c < b) s3;
          n = foldl (\<lambda>a c. a * int b + int (digit_val c)) 0 ds
      in if ds = [] then (0, 0)
         else (if neg then max (- n) LONG_MIN else min n LONG_MAX,
               (length s - length s3) + length ds))"

definition tolower :: "char \<Rightarrow> char" where
  "tolower c =
     (let n = (of_char c :: nat) in if 65 \<le> n \<and> n \<le> 90 then char_of (n + 32) else c)"

text \<open>\<^verbatim>\<open>T x; r = fromString(x, s);\<close> on a fresh local of type \<open>t\<close>: the result and \<open>x\<close>
  afterwards. Every scalar converter assigns \<open>x\<close> before it reports, so the indeterminate
  initial value of a scalar local is never read; a container local starts empty.\<close>

fun fromString_local :: "(string \<Rightarrow> 'f \<times> nat) \<Rightarrow> ty \<Rightarrow> string \<Rightarrow> bool \<times> 'f cval" where
  "fromString_local sf TString s = (True, VString s)"
| "fromString_local sf TInt s = (snd (strtol s) \<noteq> 0, VInt (word_of_int (fst (strtol s))))"
| "fromString_local sf TFloat s = (snd (sf s) \<noteq> 0, VFloat (fst (sf s)))"
| "fromString_local sf TBool s =
     (let t = map tolower s;
          isTrue = (t = ''1'' \<or> t = ''true'' \<or> t = ''yes'' \<or> t = ''enable'');
          isFalse = (t = ''0'' \<or> t = ''false'' \<or> t = ''no'' \<or> t = ''disable'')
      in (isTrue \<or> isFalse, VBool isTrue))"
| "fromString_local sf (TList t) s =
     (case fromString_local sf t s of
        (r, x) \<Rightarrow> (r, VList t (if r then [x] else [])))"

text \<open>The overloads of \<^verbatim>\<open>fromString(T &v, const char* s)\<close> on a bound variable holding \<open>v\<close>:
  the result and the variable afterwards.\<close>

fun fromString :: "(string \<Rightarrow> 'f \<times> nat) \<Rightarrow> 'f cval \<Rightarrow> string \<Rightarrow> bool \<times> 'f cval" where
  "fromString sf (VString v) s = (True, VString s)"
| "fromString sf (VInt v) s = (snd (strtol s) \<noteq> 0, VInt (word_of_int (fst (strtol s))))"
| "fromString sf (VFloat v) s = (snd (sf s) \<noteq> 0, VFloat (fst (sf s)))"
| "fromString sf (VBool v) s =
     (let t = map tolower s;
          isTrue = (t = ''1'' \<or> t = ''true'' \<or> t = ''yes'' \<or> t = ''enable'');
          isFalse = (t = ''0'' \<or> t = ''false'' \<or> t = ''no'' \<or> t = ''disable'')
      in (isTrue \<or> isFalse, VBool isTrue))"
| "fromString sf (VList t v) s =
     (case fromString_local sf t s of
        (r, x) \<Rightarrow> (r, if r then VList t (v @ [x]) else VList t v))"

text \<open>\<^verbatim>\<open>number_of_arguments<T>::n\<close>.\<close>

fun number_of_arguments :: "'f cval \<Rightarrow> nat" where
  "number_of_arguments (VBool v) = 0"
| "number_of_arguments v = 1"

section \<open>Matcher\<close>

definition isDelim :: "config \<Rightarrow> char \<Rightarrow> bool" where
  "isDelim cfg c =
     (if delims cfg = [] then c = CHR ''='' \<or> c = CHR '':'' else c \<in> set (delims cfg))"

text \<open>The \<^verbatim>\<open>while\<close> loop of \<^verbatim>\<open>isMe\<close>; \<open>k\<close> is \<^verbatim>\<open>x - z\<close>. \<open>None\<close> is the
  \<^verbatim>\<open>return false\<close> inside the loop, otherwise the rests of \<open>x\<close> and \<open>y\<close>.\<close>

fun isMe_loop :: "int \<Rightarrow> nat \<Rightarrow> string \<Rightarrow> string \<Rightarrow> (string \<times> string) option" where
  "isMe_loop m k (a # x) (b # y) =
     (if int k < m then (if a \<noteq> b then None else isMe_loop m (Suc k) x y)
      else Some (a # x, b # y))"
| "isMe_loop m k x y = Some (x, y)"

text \<open>\<^verbatim>\<open>isMe(d, z, sl)\<close>: the result and \<^verbatim>\<open>d\<close> afterwards.\<close>

definition isMe :: "config \<Rightarrow> argObj \<Rightarrow> string option \<Rightarrow> bool \<Rightarrow> bool \<times> string option" where
  "isMe cfg a z sl =
     (case (z, if sl then arg_s a else arg_l a) of
        (None, None) \<Rightarrow> (True, None)
      | (None, Some y) \<Rightarrow> (False, None)
      | (Some x, None) \<Rightarrow> (False, None)
      | (Some x, Some y) \<Rightarrow>
          (case isMe_loop (max_string_length cfg) 0 x y of
             None \<Rightarrow> (False, None)
           | Some (x', y') \<Rightarrow>
               if y' \<noteq> [] then (False, None)
               else if x' = [] then (True, None)
               else if sl then (True, Some (if isDelim cfg (hd x') then tl x' else x'))
               else if isDelim cfg (hd x') then (True, Some (tl x'))
               else (False, None)))"

section \<open>Registry\<close>

text \<open>\<^verbatim>\<open>option(variable, s_short, s_long, s_help, s_default)\<close>, the variable given by its
  address.\<close>

definition option :: "'f pstate \<Rightarrow> nat \<Rightarrow> string option \<Rightarrow> string option \<Rightarrow> string option
    \<Rightarrow> string option \<Rightarrow> 'f pstate" where
  "option st variable s_short s_long s_help s_default =
     st\<lparr>options := \<lparr>arg_s = s_short, arg_l = s_long, arg_h = s_help, arg_d = s_default,
                     seen = False, var = variable\<rparr> # options st\<rparr>"

text \<open>\<^verbatim>\<open>argObj<T>::setMe(s)\<close> of the descriptor at position \<open>i\<close>.\<close>

definition setMe :: "(string \<Rightarrow> 'f \<times> nat) \<Rightarrow> nat \<Rightarrow> string \<Rightarrow> 'f pstate \<Rightarrow> bool \<times> 'f pstate" where
  "setMe sf i s st =
     (let a = options st ! i;
          rx = fromString sf (vars st (var a)) s
      in (fst rx, st\<lparr>options := (options st)[i := a\<lparr>seen := True\<rparr>],
                     vars := (vars st)(var a := snd rx)\<rparr>))"

text \<open>The virtual call \<^verbatim>\<open>p->setMe(s)\<close>. \<^verbatim>\<open>noDefault::setMe\<close> ignores its argument;
  every converter of \<^verbatim>\<open>argObj<T>\<close> dereferences it, which is undefined for \<^verbatim>\<open>nullptr\<close>.\<close>

fun setMe_ptr :: "(string \<Rightarrow> 'f \<times> nat) \<Rightarrow> argref \<Rightarrow> string option \<Rightarrow> 'f pstate
    \<Rightarrow> (bool \<times> 'f pstate) outcome" where
  "setMe_ptr sf NoDefault s st = Returns (False, st)"
| "setMe_ptr sf (ArgObj i) None st = Undefined"
| "setMe_ptr sf (ArgObj i) (Some s) st = Returns (setMe sf i s st)"

definition numArgs :: "'f pstate \<Rightarrow> nat \<Rightarrow> nat" where
  "numArgs st i = number_of_arguments (vars st (var (options st ! i)))"

text \<open>\<^verbatim>\<open>setDefaults\<close>: the body of the loop for the descriptor at position \<open>i\<close>, and the
  loop over the registry from position \<open>k\<close> on (the list argument is what is left to
  visit).\<close>

definition setDefaults_body :: "(string \<Rightarrow> 'f \<times> nat) \<Rightarrow> 'f pstate \<Rightarrow> nat \<Rightarrow> 'f pstate" where
  "setDefaults_body sf st i =
     (let a = options st ! i in
      case arg_d a of
        None \<Rightarrow> st
      | Some d \<Rightarrow> if seen a = False then snd (setMe sf i d st) else st)"

fun setDefaults_from :: "(string \<Rightarrow> 'f \<times> nat) \<Rightarrow> nat \<Rightarrow> argObj list \<Rightarrow> 'f pstate \<Rightarrow> 'f pstate" where
  "setDefaults_from sf k [] st = st"
| "setDefaults_from sf k (a # rest) st = setDefaults_from sf (Suc k) rest (setDefaults_body sf st k)"

definition setDefaults :: "(string \<Rightarrow> 'f \<times> nat) \<Rightarrow> 'f pstate \<Rightarrow> 'f pstate" where
  "setDefaults sf st = setDefaults_from sf 0 (options st) st"

fun findDefault_from :: "config \<Rightarrow> nat \<Rightarrow> argObj list \<Rightarrow> argref" where
  "findDefault_from cfg k [] = NoDefault"
| "findDefault_from cfg k (i # rest) =
     (if fst (isMe cfg i None False) \<and> fst (isMe cfg i None True) then ArgObj k
      else findDefault_from cfg (Suc k) rest)"

definition findDefault :: "config \<Rightarrow> 'f pstate \<Rightarrow> argref" where
  "findDefault cfg st = findDefault_from cfg 0 (options st)"

text \<open>\<^verbatim>\<open>findArg(d, s, sl)\<close>: \<open>None\<close> is \<^verbatim>\<open>nullptr\<close>, otherwise the position of the
  descriptor and \<^verbatim>\<open>d\<close> as its \<^verbatim>\<open>isMe\<close> left it.\<close>

fun findArg_from :: "config \<Rightarrow> nat \<Rightarrow> argObj list \<Rightarrow> string option \<Rightarrow> bool
    \<Rightarrow> (nat \<times> string option) option" where
  "findArg_from cfg k [] s sl = None"
| "findArg_from cfg k (i # rest) s sl =
     (if fst (isMe cfg i s sl) then Some (k, snd (isMe cfg i s sl))
      else findArg_from cfg (Suc k) rest s sl)"

definition findArg :: "config \<Rightarrow> 'f pstate \<Rightarrow> string option \<Rightarrow> bool \<Rightarrow> (nat \<times> string option) option" where
  "findArg cfg st s sl = findArg_from cfg 0 (options st) s sl"

section \<open>Token consumption\<close>

definition allgood :: errorState where
  "allgood = \<lparr>state = ok, op = None, val = None\<rparr>"

text \<open>The \<^verbatim>\<open>while (!l.empty())\<close> loop of \<^verbatim>\<open>proc\<close> after the token \<^verbatim>\<open>-\<close>.\<close>

fun proc_all :: "(string \<Rightarrow> 'f \<times> nat) \<Rightarrow> argref \<Rightarrow> string option list \<Rightarrow> 'f pstate
    \<Rightarrow> (errorState \<times> string option list \<times> 'f pstate) outcome" where
  "proc_all sf defOp [] st = Returns (allgood, [], st)"
| "proc_all sf defOp (v # l) st =
     (case setMe_ptr sf defOp v st of
        Undefined \<Rightarrow> Undefined
      | Returns (r, st') \<Rightarrow>
          if r = False then Returns (\<lparr>state = invalid, op = None, val = v\<rparr>, l, st')
          else proc_all sf defOp l st')"

text \<open>\<^verbatim>\<open>proc(l, defOp)\<close>: the returned error state, the queue and the state afterwards.
  \<^verbatim>\<open>l.front()\<close> on an empty list is undefined.\<close>

definition proc :: "config \<Rightarrow> (string \<Rightarrow> 'f \<times> nat) \<Rightarrow> argref \<Rightarrow> string option list \<Rightarrow> 'f pstate
    \<Rightarrow> (errorState \<times> string option list \<times> 'f pstate) outcome" where
  "proc cfg sf defOp l st =
     (case l of
        [] \<Rightarrow> Undefined
      | None # l1 \<Rightarrow> Returns (allgood, l1, st)
      | Some [] # l1 \<Rightarrow> Returns (allgood, l1, st)
      | Some (c0 # op1) # l1 \<Rightarrow>
          if c0 = CHR ''-'' then
            (case op1 of
               [] \<Rightarrow> proc_all sf defOp l1 st
             | c1 # op2 \<Rightarrow>
                 (case (if c1 = CHR ''-'' then findArg cfg st (Some op2) False
                        else findArg cfg st (Some op1) True) of
                    None \<Rightarrow> Returns (\<lparr>state = unknown, op = Some (c0 # op1), val = None\<rparr>, l1, st)
                  | Some (a, delm) \<Rightarrow>
                      (let l2 = (case delm of None \<Rightarrow> l1 | Some d \<Rightarrow> Some d # l1) in
                       if numArgs st a = 0 then
                         (case setMe sf a ''true'' st of
                            (r, st') \<Rightarrow>
                              Returns (if r then allgood
                                       else \<lparr>state = invalid, op = Some (c0 # op1), val = Some ''true''\<rparr>,
                                       l2, st'))
                       else
                         (case l2 of
                            [] \<Rightarrow> Undefined
                          | v # l3 \<Rightarrow>
                              (case setMe_ptr sf (ArgObj a) v st of
                                 Undefined \<Rightarrow> Undefined
                               | Returns (r, st') \<Rightarrow>
                                   Returns (if r then allgood
                                            else \<lparr>state = invalid, op = Some (c0 # op1), val = v\<rparr>,
                                            l3, st'))))))
          else
            (case setMe_ptr sf defOp (Some (c0 # op1)) st of
               Undefined \<Rightarrow> Undefined
             | Returns (r, st') \<Rightarrow>
                 Returns (if r then allgood
                          else \<lparr>state = invalid, op = Some ''default list'', val = Some (c0 # op1)\<rparr>,
                          l1, st')))"

text \<open>\<^verbatim>\<open>while (c-- > 1) args.push_front(argv[c]);\<close> in \<^verbatim>\<open>populate\<close>; reading past the
  end of \<^verbatim>\<open>argv\<close> is undefined.\<close>

function populate_args :: "int \<Rightarrow> string option list \<Rightarrow> string option list
    \<Rightarrow> string option list outcome" where
  "populate_args c argv args =
     (if c > 1 then
        (if nat (c - 1) < length argv
         then populate_args (c - 1) argv (argv ! nat (c - 1) # args)
         else Undefined)
      else Returns args)"
  by pat_completeness auto
termination
  by (relation "measure (\<lambda>(c, argv, args). nat c)") auto

text \<open>The size of the token queue: one for every token and one for every character.
  Each call of \<^verbatim>\<open>proc\<close> makes it smaller, also when it pushes an embedded value back.\<close>

fun token_size :: "string option \<Rightarrow> nat" where
  "token_size None = 1"
| "token_size (Some s) = Suc (length s)"

definition queue_size :: "string option list \<Rightarrow> nat" where
  "queue_size l = sum_list (map token_size l)"

text \<open>\<^verbatim>\<open>while (!args.empty() && (r = proc(args, defOp)).state == ok) {}\<close>. The local
  \<^verbatim>\<open>errorState r\<close> is declared without an initialiser: it is \<open>None\<close> until the first
  assignment.\<close>

function populate_loop :: "config \<Rightarrow> (string \<Rightarrow> 'f \<times> nat) \<Rightarrow> argref \<Rightarrow> string option list
    \<Rightarrow> 'f pstate \<Rightarrow> errorState option \<Rightarrow> (errorState option \<times> 'f pstate) outcome" where
  "populate_loop cfg sf defOp args st r =
     (if args = [] then Returns (r, st)
      else
        (case proc cfg sf defOp args st of
           Undefined \<Rightarrow> Undefined
         | Returns (r', args', st') \<Rightarrow>
             if state r' = ok then populate_loop cfg sf defOp args' st' (Some r')
             else Returns (Some r', st')))"
  by pat_completeness auto

text \<open>\<^verbatim>\<open>populate(c, argv)\<close>. Reading \<^verbatim>\<open>r.state\<close> while \<^verbatim>\<open>r\<close> is still indeterminate
  is undefined.\<close>

definition populate :: "config \<Rightarrow> (string \<Rightarrow> 'f \<times> nat) \<Rightarrow> int \<Rightarrow> string option list \<Rightarrow> 'f pstate
    \<Rightarrow> (errorState \<times> 'f pstate) outcome" where
  "populate cfg sf c argv st =
     (case populate_args c argv [] of
        Undefined \<Rightarrow> Undefined
      | Returns args \<Rightarrow>
          (case populate_loop cfg sf (findDefault cfg st) args st None of
             Undefined \<Rightarrow> Undefined
           | Returns (None, st') \<Rightarrow> Undefined
           | Returns (Some r, st') \<Rightarrow>
               Returns (r, if state r = ok then setDefaults sf st' else st')))"

section \<open>The example of the header comment\<close>

text \<open>\<^verbatim>\<open>arguments::options args;\<close> has the default template parameters.\<close>

definition default_config :: config where
  "default_config = \<lparr>max_string_length = 64, delims = []\<rparr>"

text \<open>The four \<^verbatim>\<open>args.option(...)\<close> calls of the usage example, in their order; the
  variables \<^verbatim>\<open>outfile, count, ws, infile\<close> are at the addresses 0, 1, 2, 3.\<close>

definition example_registry :: "'f pstate \<Rightarrow> 'f pstate" where
  "example_registry st =
     option (option (option (option st
       0 (Some ''o'') (Some ''outfile'') (Some ''Output file name'') (Some ''out.dat''))
       1 (Some ''c'') (Some ''count'') (Some ''Number of loops'') (Some ''13''))
       2 (Some ''w'') (Some ''w'') (Some ''w list'') None)
       3 None None (Some ''Input file list'') None"

text \<open>The variables as the example declares them: \<^verbatim>\<open>string outfile; int count;\<close> (whatever
  they hold) and the two empty containers; \<open>other\<close> is the rest of the store.\<close>

definition example_vars :: "(nat \<Rightarrow> 'f cval) \<Rightarrow> string \<Rightarrow> 32 word \<Rightarrow> nat \<Rightarrow> 'f cval" where
  "example_vars other outfile count =
     other(0 := VString outfile, 1 := VInt count, 2 := VList TInt [], 3 := VList TString [])"

text \<open>A \<^verbatim>\<open>strtof\<close> that converts nothing, for runs of programs without \<^verbatim>\<open>float\<close> options.\<close>

definition no_strtof :: "string \<Rightarrow> unit \<times> nat" where
  "no_strtof s = ((), 0)"

section \<open>Notions of the specification\<close>

text \<open>Two strings are the same up to the case of ASCII letters.\<close>

definition isupper :: "char \<Rightarrow> bool" where
  "isupper c = (65 \<le> (of_char c :: nat) \<and> (of_char c :: nat) \<le> 90)"

definition same_char_nocase :: "char \<Rightarrow> char \<Rightarrow> bool" where
  "same_char_nocase a b =
     (a = b \<or> (isupper a \<and> (of_char b :: nat) = of_char a + 32)
            \<or> (isupper b \<and> (of_char a :: nat) = of_char b + 32))"

definition same_nocase :: "string \<Rightarrow> string \<Rightarrow> bool" where
  "same_nocase s w = list_all2 same_char_nocase s w"

text \<open>A registration call \<^verbatim>\<open>option(variable, s, l, h, d)\<close> written as the descriptor it
  creates, so that a sequence of registrations is a list.\<close>

definition register :: "'f pstate \<Rightarrow> argObj \<Rightarrow> 'f pstate" where
  "register st a = option st (var a) (arg_s a) (arg_l a) (arg_h a) (arg_d a)"

text \<open>A registry with the one option that \<^verbatim>\<open>populateWithHelp\<close> registers, bound to a
  \<^verbatim>\<open>bool\<close> that is false.\<close>

definition help_only :: "unit pstate" where
  "help_only = option \<lparr>options = [], vars = (\<lambda>_. VBool False)\<rparr>
     0 (Some ''h'') (Some ''help'') (Some ''Display help.'') None"

text \<open>The static type of a bound variable.\<close>

fun type_of :: "'f cval \<Rightarrow> ty" where
  "type_of (VString v) = TString"
| "type_of (VInt v) = TInt"
| "type_of (VFloat v) = TFloat"
| "type_of (VBool v) = TBool"
| "type_of (VList t v) = TList t"

text \<open>Feeding one token to the setter of the default consumer \<open>defOp\<close>: whether the
  conversion succeeds, and the state afterwards.\<close>

definition accepts :: "(string \<Rightarrow> 'f \<times> nat) \<Rightarrow> argref \<Rightarrow> 'f pstate \<Rightarrow> string \<Rightarrow> bool" where
  "accepts sf defOp st s =
     (case defOp of
        NoDefault \<Rightarrow> False
      | ArgObj i \<Rightarrow> fst (fromString sf (vars st (var (options st ! i))) s))"

definition feed :: "(string \<Rightarrow> 'f \<times> nat) \<Rightarrow> argref \<Rightarrow> 'f pstate \<Rightarrow> string \<Rightarrow> 'f pstate" where
  "feed sf defOp st s = (case defOp of NoDefault \<Rightarrow> st | ArgObj i \<Rightarrow> snd (setMe sf i s st))"

text \<open>The specification's \<^verbatim>\<open>applyDefaults()\<close>, in its words: the descriptors whose seen
  flag is false once the queue has been consumed and that have a default string are
  \<open>defaults_due\<close>; the setter of each is called with its default string, in the order
  of the registry. The flags and the default strings are those of the state \<open>st\<close> at
  the end of the token loop.\<close>

definition defaults_due :: "'f pstate \<Rightarrow> nat list" where
  "defaults_due st =
     filter (\<lambda>i. \<not> seen (options st ! i) \<and> arg_d (options st ! i) \<noteq> None)
       [0..<length (options st)]"

definition apply_default :: "(string \<Rightarrow> 'f \<times> nat) \<Rightarrow> 'f pstate \<Rightarrow> 'f pstate \<Rightarrow> nat \<Rightarrow> 'f pstate" where
  "apply_default sf st s i =
     (case arg_d (options st ! i) of None \<Rightarrow> s | Some d \<Rightarrow> snd (setMe sf i d s))"

definition applyDefaults_spec :: "(string \<Rightarrow> 'f \<times> nat) \<Rightarrow> 'f pstate \<Rightarrow> 'f pstate" where
  "applyDefaults_spec sf st = foldl (apply_default sf st) st (defaults_due st)"

text \<open>The example's registry before the parse, with an empty \<^verbatim>\<open>outfile\<close> and
  \<^verbatim>\<open>count = 0\<close>.\<close>

definition example_start :: "unit pstate" where
  "example_start = example_registry \<lparr>options = [], vars = example_vars (\<lambda>_. VInt 0) [] 0\<rparr>"

text \<open>A registry with an \<^verbatim>\<open>int\<close> option whose default string \<^verbatim>\<open>abc\<close> is no number,
  bound to a variable that holds 7, and a presence flag; \<open>bad_default_seen\<close> is the
  state once the command line \<^verbatim>\<open>./test -v\<close> has been consumed.\<close>

definition bad_default_start :: "unit pstate" where
  "bad_default_start =
     option (option \<lparr>options = [], vars = (\<lambda>_. VInt 7)(1 := VBool False)\<rparr>
       0 (Some ''c'') (Some ''count'') (Some ''Number of loops'') (Some ''abc''))
       1 (Some ''v'') (Some ''verbose'') None None"

definition bad_default_seen :: "unit pstate" where
  "bad_default_seen =
     \<lparr>options =
        [\<lparr>arg_s = Some ''v'', arg_l = Some ''verbose'', arg_h = None, arg_d = None,
           seen = True, var = 1\<rparr>,
         \<lparr>arg_s = Some ''c'', arg_l = Some ''count'', arg_h = Some ''Number of loops'',
           arg_d = Some ''abc'', seen = False, var = 0\<rparr>],
      vars = (\<lambda>_. VInt 7)(1 := VBool True)\<rparr>"

text \<open>The first \<open>n\<close> iterations of the \<^verbatim>\<open>while\<close> loop of \<^verbatim>\<open>populate\<close>, each returning
  Ok: the queue and the state after them (\<open>None\<close> if the loop does not get that far).\<close>

fun loop_steps :: "config \<Rightarrow> (string \<Rightarrow> 'f \<times> nat) \<Rightarrow> argref \<Rightarrow> nat \<Rightarrow> string option list
    \<Rightarrow> 'f pstate \<Rightarrow> (string option list \<times> 'f pstate) option" where
  "loop_steps cfg sf defOp 0 args st = Some (args, st)"
| "loop_steps cfg sf defOp (Suc n) args st =
     (if args = [] then None
      else
        (case proc cfg sf defOp args st of
           Undefined \<Rightarrow> None
         | Returns (r, args', st') \<Rightarrow>
             if state r = ok then loop_steps cfg sf defOp n args' st' else None))"

text \<open>The spellings of the registry, which no parse changes.\<close>

definition spellings :: "'f pstate \<Rightarrow> (string option \<times> string option) list" where
  "spellings st = map (\<lambda>a. (arg_s a, arg_l a)) (options st)"

section \<open>The parse loop terminates\<close>

lemma queue_size_simps [simp]:
  "queue_size [] = 0"
  "queue_size (v # l) = token_size v + queue_size l"
  by (simp_all add: queue_size_def)

lemma isMe_loop_length:
  "isMe_loop m k x y = Some (x', y') \<Longrightarrow> length x' \<le> length x"
  by (induction m k x y rule: isMe_loop.induct) (auto split: if_splits)

lemma isMe_delm_length:
  assumes "isMe cfg a (Some z) sl = (b, Some d)"
  shows "length d \<le> length z"
  using assms isMe_loop_length [of "max_string_length cfg" 0 z]
  by (fastforce simp: isMe_def split: option.splits if_splits prod.splits)

lemma findArg_from_delm_length:
  "findArg_from cfg k os (Some z) sl = Some (i, Some d) \<Longrightarrow> length d \<le> length z"
proof (induction os arbitrary: k)
  case Nil
  then show ?case by simp
next
  case (Cons a os)
  show ?case
  proof (cases "fst (isMe cfg a (Some z) sl)")
    case True
    with Cons.prems have "isMe cfg a (Some z) sl = (True, Some d)"
      by (simp add: prod_eq_iff)
    then show ?thesis by (rule isMe_delm_length)
  next
    case False
    with Cons show ?thesis by simp
  qed
qed

lemma proc_all_size:
  "proc_all sf defOp l st = Returns (r, l', st') \<Longrightarrow> queue_size l' \<le> queue_size l"
proof (induction l arbitrary: st)
  case Nil
  then show ?case by simp
next
  case (Cons v l)
  then show ?case
    by (cases v) (fastforce split: outcome.splits prod.splits if_splits)+
qed

lemma proc_size:
  assumes "proc cfg sf defOp l st = Returns (r, l', st')"
  shows "queue_size l' < queue_size l"
  using assms
  apply (simp add: proc_def findArg_def
      split: list.splits option.splits if_splits prod.splits outcome.splits)
  apply (auto dest!: proc_all_size findArg_from_delm_length simp: Let_def
      split: option.splits if_splits list.splits outcome.splits prod.splits)
  done

termination populate_loop
  apply (relation "measure (\<lambda>(cfg, sf, defOp, args, st, r). queue_size args)")
   apply simp
  apply (auto dest: proc_size)
  done

declare populate_loop.simps [simp del]

declare populate_args.simps [simp del]

lemmas populate_unfold = populate_def populate_args.simps populate_loop.simps

section \<open>Some values of \<^verbatim>\<open>strtol\<close>\<close>

lemma strtol_one_digit:
  "strtol ''4'' = (4, 1)" "strtol ''5'' = (5, 1)" "strtol ''1'' = (1, 1)" "strtol ''6'' = (6, 1)"
  by (simp_all add: strtol_def isspace_def digit_val_def LONG_MAX_def)

lemma Let_cases: "(\<And>x. P (f x)) \<Longrightarrow> P (Let a f)"
  by simp

lemma strtol_nothing: "snd (strtol s) = 0 \<Longrightarrow> fst (strtol s) = 0"
proof -
  have "snd (strtol s) = 0 \<longrightarrow> fst (strtol s) = 0"
    unfolding strtol_def
    apply (rule Let_cases [where P = "\<lambda>r. snd r = 0 \<longrightarrow> fst r = 0"])+
    apply simp
    done
  then show "snd (strtol s) = 0 \<Longrightarrow> fst (strtol s) = 0"
    by simp
qed

section \<open>The end-to-end example\<close>

text \<open>
  C1. With the four registrations of the usage example, the command line
  \<^verbatim>\<open>./test --outfile foo -c 4 -w 4 -w5 -w=4 -w:1 --w 6 bar1 bar2 bar3\<close> parses to Ok and
  leaves \<^verbatim>\<open>outfile = "foo"\<close>, \<^verbatim>\<open>count = 4\<close>, \<^verbatim>\<open>ws = [4,5,4,1,6]\<close> and the
  positional list \<^verbatim>\<open>["bar1","bar2","bar3"]\<close>, whatever \<^verbatim>\<open>outfile\<close> and \<^verbatim>\<open>count\<close> held
  before; every descriptor has been seen.
\<close>

theorem example_end_to_end:
  "populate default_config sf 15
     (map Some [''./test'', ''--outfile'', ''foo'', ''-c'', ''4'', ''-w'', ''4'', ''-w5'', ''-w=4'',
        ''-w:1'', ''--w'', ''6'', ''bar1'', ''bar2'', ''bar3''])
     (example_registry \<lparr>options = [], vars = example_vars other outfile count\<rparr>)
   = Returns (allgood,
       \<lparr>options =
          [\<lparr>arg_s = None, arg_l = None, arg_h = Some ''Input file list'', arg_d = None,
             seen = True, var = 3\<rparr>,
           \<lparr>arg_s = Some ''w'', arg_l = Some ''w'', arg_h = Some ''w list'', arg_d = None,
             seen = True, var = 2\<rparr>,
           \<lparr>arg_s = Some ''c'', arg_l = Some ''count'', arg_h = Some ''Number of loops'',
             arg_d = Some ''13'', seen = True, var = 1\<rparr>,
           \<lparr>arg_s = Some ''o'', arg_l = Some ''outfile'', arg_h = Some ''Output file name'',
             arg_d = Some ''out.dat'', seen = True, var = 0\<rparr>],
        vars = other
          (0 := VString ''foo'', 1 := VInt 4,
           2 := VList TInt [VInt 4, VInt 5, VInt 4, VInt 1, VInt 6],
           3 := VList TString [VString ''bar1'', VString ''bar2'', VString ''bar3''])\<rparr>)"
  by (simp add: populate_unfold example_registry_def example_vars_def default_config_def option_def
      findDefault_def isMe_def proc_def findArg_def numArgs_def setMe_def allgood_def isDelim_def
      setDefaults_def setDefaults_body_def fun_upd_twist strtol_one_digit)

section \<open>No token at all\<close>

text \<open>
  C10. Called with an argument count of at most one, \<^verbatim>\<open>populate\<close> never assigns its
  local \<^verbatim>\<open>errorState r\<close>, which has no initialiser, and then reads \<^verbatim>\<open>r.state\<close>: its
  behaviour is undefined, for every registry. It does not return a well-defined Ok.
\<close>

theorem populate_no_tokens_undefined:
  "c \<le> 1 \<Longrightarrow> populate cfg sf c argv st = Undefined"
  by (simp add: populate_unfold)

theorem populate_no_tokens_undefined_witness:
  "(1::int) \<le> 1 \<and>
   populate default_config no_strtof 1 [Some ''./test'']
     (example_registry \<lparr>options = [], vars = example_vars (\<lambda>_. VInt 0) [] 0\<rparr>) = Undefined"
  using populate_no_tokens_undefined [of 1 default_config no_strtof "[Some ''./test'']"
      "example_registry \<lparr>options = [], vars = example_vars (\<lambda>_. VInt 0) [] 0\<rparr>"]
  by simp

section \<open>The boolean converter\<close>

lemma tolower_eq_iff:
  assumes "\<not> isupper b"
  shows "tolower a = b \<longleftrightarrow> same_char_nocase a b"
proof (cases "isupper a")
  case True
  then have "of_char a + 32 < (256::nat)"
    by (simp add: isupper_def)
  then have tb: "take_bit 8 (of_char a + 32 :: nat) = of_char a + 32"
    by (simp add: take_bit_nat_eq_self)
  have "tolower a = b \<longleftrightarrow> (of_char b :: nat) = of_char a + 32"
    using True by (auto simp: tolower_def Let_def isupper_def char_of_eq_iff tb)
  moreover have "a \<noteq> b"
    using True assms by auto
  ultimately show ?thesis
    using True assms by (auto simp: same_char_nocase_def)
next
  case False
  with assms show ?thesis
    by (auto simp: tolower_def same_char_nocase_def isupper_def Let_def)
qed

lemma map_tolower_eq_iff:
  "list_all (\<lambda>c. \<not> isupper c) w \<Longrightarrow> map tolower s = w \<longleftrightarrow> same_nocase s w"
proof (induction s arbitrary: w)
  case Nil
  then show ?case by (auto simp: same_nocase_def)
next
  case (Cons a s)
  then show ?case
    by (cases w) (auto simp: same_nocase_def tolower_eq_iff)
qed

lemma lower_words:
  "map tolower s = ''1'' \<longleftrightarrow> same_nocase s ''1''"
  "map tolower s = ''true'' \<longleftrightarrow> same_nocase s ''true''"
  "map tolower s = ''yes'' \<longleftrightarrow> same_nocase s ''yes''"
  "map tolower s = ''enable'' \<longleftrightarrow> same_nocase s ''enable''"
  "map tolower s = ''0'' \<longleftrightarrow> same_nocase s ''0''"
  "map tolower s = ''false'' \<longleftrightarrow> same_nocase s ''false''"
  "map tolower s = ''no'' \<longleftrightarrow> same_nocase s ''no''"
  "map tolower s = ''disable'' \<longleftrightarrow> same_nocase s ''disable''"
  by (rule map_tolower_eq_iff, simp add: isupper_def)+

text \<open>
  C3, as the code has it. The boolean converter accepts, up to the case of letters,
  exactly \<^verbatim>\<open>1, true, yes, enable\<close> (the variable becomes true) and
  \<^verbatim>\<open>0, false, no, disable\<close> (the variable becomes false). On every other string it
  reports failure and the variable becomes false: \<^verbatim>\<open>v = isTrue\<close> is assigned before the
  result is known.
\<close>

theorem fromString_bool:
  "fromString sf (VBool v) s =
     (if list_ex (same_nocase s) [''1'', ''true'', ''yes'', ''enable''] then (True, VBool True)
      else if list_ex (same_nocase s) [''0'', ''false'', ''no'', ''disable''] then (True, VBool False)
      else (False, VBool False))"
  by (simp add: lower_words Let_def)

text \<open>C3 as stated fails: a variable that held true is false after the rejected string
  \<^verbatim>\<open>maybe\<close>.\<close>

theorem fromString_bool_counterexample:
  "fst (fromString no_strtof (VBool True) ''maybe'') = False \<and>
   snd (fromString no_strtof (VBool True) ''maybe'') \<noteq> VBool True"
  by (simp add: tolower_def char_of_eq_iff)

section \<open>Registry order and first match\<close>

lemma isMe_seen [simp]: "isMe cfg (a\<lparr>seen := b\<rparr>) z sl = isMe cfg a z sl"
  by (cases sl; cases z) (simp_all add: isMe_def)

lemma findArg_from_first:
  assumes "i < length os" and "fst (isMe cfg (os ! i) z sl)"
    and "\<forall>j<i. \<not> fst (isMe cfg (os ! j) z sl)"
  shows "findArg_from cfg k os z sl = Some (k + i, snd (isMe cfg (os ! i) z sl))"
  using assms
proof (induction os arbitrary: i k)
  case Nil
  then show ?case by simp
next
  case (Cons a os)
  show ?case
  proof (cases i)
    case 0
    with Cons.prems show ?thesis by simp
  next
    case (Suc n)
    from Cons.prems(3) Suc have "\<not> fst (isMe cfg a z sl)"
      by auto
    moreover have "findArg_from cfg (Suc k) os z sl = Some (Suc k + n, snd (isMe cfg (os ! n) z sl))"
    proof (rule Cons.IH)
      show "n < length os" using Cons.prems(1) Suc by simp
      show "fst (isMe cfg (os ! n) z sl)" using Cons.prems(2) Suc by simp
      show "\<forall>j<n. \<not> fst (isMe cfg (os ! j) z sl)"
      proof (intro allI impI)
        fix j assume "j < n"
        then have "Suc j < i" using Suc by simp
        with Cons.prems(3) have "\<not> fst (isMe cfg ((a # os) ! Suc j) z sl)" by blast
        then show "\<not> fst (isMe cfg (os ! j) z sl)" by simp
      qed
    qed
    ultimately show ?thesis using Suc by simp
  qed
qed

lemma options_register: "options (register st a) = a\<lparr>seen := False\<rparr> # options st"
  by (cases a) (simp add: register_def option_def)

lemma options_register_all:
  "options (foldl register st regs) = rev (map (\<lambda>a. a\<lparr>seen := False\<rparr>) regs) @ options st"
  by (induction regs arbitrary: st) (simp_all add: options_register)

text \<open>
  C8. Registration prepends, so the registry is iterated in the reverse of the
  registration order; \<^verbatim>\<open>findArg\<close> returns the first match in that order. If several
  registered descriptors match a token, the one registered last is returned (with the
  embedded value its \<^verbatim>\<open>isMe\<close> found).
\<close>

theorem registry_order:
  assumes "q < length regs"
    and "fst (isMe cfg (regs ! q) z sl)"
    and "\<forall>j. q < j \<and> j < length regs \<longrightarrow> \<not> fst (isMe cfg (regs ! j) z sl)"
  shows "options (foldl register \<lparr>options = [], vars = vs\<rparr> regs)
           = rev (map (\<lambda>a. a\<lparr>seen := False\<rparr>) regs)
       \<and> options (foldl register \<lparr>options = [], vars = vs\<rparr> regs) ! (length regs - Suc q)
           = (regs ! q)\<lparr>seen := False\<rparr>
       \<and> findArg cfg (foldl register \<lparr>options = [], vars = vs\<rparr> regs) z sl
           = Some (length regs - Suc q, snd (isMe cfg (regs ! q) z sl))"
proof -
  let ?os = "options (foldl register \<lparr>options = [], vars = vs\<rparr> regs)"
  have os: "?os = rev (map (\<lambda>a. a\<lparr>seen := False\<rparr>) regs)"
    by (simp add: options_register_all)
  have nth: "?os ! j = (regs ! (length regs - Suc j))\<lparr>seen := False\<rparr>" if "j < length regs" for j
    using that by (simp add: os rev_nth)
  have at: "?os ! (length regs - Suc q) = (regs ! q)\<lparr>seen := False\<rparr>"
    using assms(1) by (simp add: nth)
  have "findArg_from cfg 0 ?os z sl
      = Some (0 + (length regs - Suc q), snd (isMe cfg (?os ! (length regs - Suc q)) z sl))"
  proof (rule findArg_from_first)
    show "length regs - Suc q < length ?os"
      using assms(1) by (simp add: os)
    show "fst (isMe cfg (?os ! (length regs - Suc q)) z sl)"
      using assms(2) by (simp add: at)
    show "\<forall>j<length regs - Suc q. \<not> fst (isMe cfg (?os ! j) z sl)"
    proof (intro allI impI)
      fix j assume j: "j < length regs - Suc q"
      then have "q < length regs - Suc j \<and> length regs - Suc j < length regs"
        by arith
      with assms(3) have "\<not> fst (isMe cfg (regs ! (length regs - Suc j)) z sl)"
        by blast
      moreover have "j < length regs" using j by arith
      ultimately show "\<not> fst (isMe cfg (?os ! j) z sl)"
        by (simp add: nth)
    qed
  qed
  then have "findArg cfg (foldl register \<lparr>options = [], vars = vs\<rparr> regs) z sl
      = Some (length regs - Suc q, snd (isMe cfg (regs ! q) z sl))"
    by (simp add: findArg_def at)
  with os at show ?thesis by simp
qed

theorem registry_order_witness:
  "(1::nat) < length [\<lparr>arg_s = Some ''a'', arg_l = Some ''alpha'', arg_h = None, arg_d = None, seen = False, var = 0\<rparr>,
                     \<lparr>arg_s = Some ''a'', arg_l = Some ''beta'', arg_h = None, arg_d = None, seen = False, var = 1\<rparr>]
   \<and> fst (isMe default_config
         \<lparr>arg_s = Some ''a'', arg_l = Some ''alpha'', arg_h = None, arg_d = None, seen = False, var = 0\<rparr>
         (Some ''a5'') True)
   \<and> fst (isMe default_config
         \<lparr>arg_s = Some ''a'', arg_l = Some ''beta'', arg_h = None, arg_d = None, seen = False, var = 1\<rparr>
         (Some ''a5'') True)
   \<and> findArg default_config
         (foldl register \<lparr>options = [], vars = (\<lambda>_. VInt 0) :: nat \<Rightarrow> unit cval\<rparr>
            [\<lparr>arg_s = Some ''a'', arg_l = Some ''alpha'', arg_h = None, arg_d = None, seen = False, var = 0\<rparr>,
             \<lparr>arg_s = Some ''a'', arg_l = Some ''beta'', arg_h = None, arg_d = None, seen = False, var = 1\<rparr>])
         (Some ''a5'') True
       = Some (0, Some ''5'')
   \<and> var (options
         (foldl register \<lparr>options = [], vars = (\<lambda>_. VInt 0) :: nat \<Rightarrow> unit cval\<rparr>
            [\<lparr>arg_s = Some ''a'', arg_l = Some ''alpha'', arg_h = None, arg_d = None, seen = False, var = 0\<rparr>,
             \<lparr>arg_s = Some ''a'', arg_l = Some ''beta'', arg_h = None, arg_d = None, seen = False, var = 1\<rparr>])
         ! 0) = 1"
  using registry_order [of 1
      "[\<lparr>arg_s = Some ''a'', arg_l = Some ''alpha'', arg_h = None, arg_d = None, seen = False, var = 0\<rparr>,
        \<lparr>arg_s = Some ''a'', arg_l = Some ''beta'', arg_h = None, arg_d = None, seen = False, var = 1\<rparr>]"
      default_config "Some ''a5''" True "(\<lambda>_. VInt 0) :: nat \<Rightarrow> unit cval"]
  by (simp add: isMe_def default_config_def isDelim_def)

section \<open>Presence flags\<close>

lemma fromString_true: "fromString sf (VBool b) ''true'' = (True, VBool True)"
  by (simp add: tolower_def char_of_eq_iff)

text \<open>
  C9. When the option token \<^verbatim>\<open>-z\<close> (short, or long when \<open>z\<close> begins with a second
  \<^verbatim>\<open>-\<close>) selects a descriptor bound to a \<^verbatim>\<open>bool\<close>, \<^verbatim>\<open>proc\<close> returns Ok, the
  descriptor's setter has been called with the literal \<^verbatim>\<open>"true"\<close>, which sets the
  variable to true and marks the descriptor seen, and the tokens after the flag are all
  still in the queue: the flag consumes none of them (an embedded value is even pushed
  in front of them).
\<close>

theorem boolean_flag:
  assumes "z \<noteq> []"
    and "(if hd z = CHR ''-'' then findArg cfg st (Some (tl z)) False
          else findArg cfg st (Some z) True) = Some (i, delm)"
    and "vars st (var (options st ! i)) = VBool b"
  shows "proc cfg sf defOp (Some (CHR ''-'' # z) # rest) st
           = Returns (allgood,
               (case delm of None \<Rightarrow> rest | Some d \<Rightarrow> Some d # rest),
               snd (setMe sf i ''true'' st))
       \<and> snd (setMe sf i ''true'' st)
           = st\<lparr>options := (options st)[i := (options st ! i)\<lparr>seen := True\<rparr>],
                vars := (vars st)(var (options st ! i) := VBool True)\<rparr>"
proof -
  obtain c1 op2 where z: "z = c1 # op2"
    using assms(1) by (cases z) auto
  have set: "setMe sf i ''true'' st
      = (True, st\<lparr>options := (options st)[i := (options st ! i)\<lparr>seen := True\<rparr>],
                vars := (vars st)(var (options st ! i) := VBool True)\<rparr>)"
    by (simp add: setMe_def assms(3) fromString_true Let_def del: fromString.simps)
  have num: "numArgs st i = 0"
    by (simp add: numArgs_def assms(3))
  show ?thesis
    using assms(2) by (simp add: proc_def z set num split: if_splits)
qed


theorem boolean_flag_witness:
  "''h'' \<noteq> []
   \<and> findArg default_config help_only (Some ''h'') True = Some (0, None)
   \<and> vars help_only (var (options help_only ! 0)) = VBool False
   \<and> proc default_config no_strtof NoDefault [Some ''-h'', Some ''-x''] help_only
       = Returns (allgood, [Some ''-x''], snd (setMe no_strtof 0 ''true'' help_only))
   \<and> vars (snd (setMe no_strtof 0 ''true'' help_only)) 0 = VBool True"
  using boolean_flag [of "''h''" default_config help_only 0 None False no_strtof NoDefault
      "[Some ''-x'']"]
  by (simp add: help_only_def option_def findArg_def isMe_def default_config_def)

section \<open>The token \<^verbatim>\<open>-\<close>\<close>

lemma fst_fromString:
  "fst (fromString sf v s) = fst (fromString_local sf (type_of v) s)"
  by (cases v) (simp_all add: Let_def split: prod.splits)

lemma type_of_fromString [simp]:
  "type_of (snd (fromString sf v s)) = type_of v"
  by (cases v) (simp_all add: Let_def split: prod.splits)

lemma var_setMe [simp]:
  "var (options (snd (setMe sf i s st)) ! j) = var (options st ! j)"
proof (cases "i < length (options st)")
  case True
  then show ?thesis
    by (cases "j = i") (simp_all add: setMe_def Let_def)
next
  case False
  then show ?thesis
    by (simp add: setMe_def Let_def list_update_beyond)
qed

lemma vars_setMe:
  "vars (snd (setMe sf i s st))
     = (vars st)(var (options st ! i) := snd (fromString sf (vars st (var (options st ! i))) s))"
  by (simp add: setMe_def Let_def)

lemma fst_setMe:
  "fst (setMe sf i s st) = fst (fromString sf (vars st (var (options st ! i))) s)"
  by (simp add: setMe_def Let_def)

lemma accepts_feed [simp]:
  "accepts sf defOp (feed sf defOp st t) = accepts sf defOp st"
proof (cases defOp)
  case NoDefault
  then show ?thesis by (simp add: feed_def)
next
  case (ArgObj i)
  show ?thesis
  proof
    fix s
    have "fst (fromString sf (vars (snd (setMe sf i t st)) (var (options st ! i))) s)
        = fst (fromString sf (vars st (var (options st ! i))) s)"
      by (simp add: fst_fromString vars_setMe)
    then show "accepts sf defOp (feed sf defOp st t) s = accepts sf defOp st s"
      by (simp add: accepts_def feed_def ArgObj)
  qed
qed

lemma setMe_ptr_Some:
  "setMe_ptr sf defOp (Some s) st = Returns (accepts sf defOp st s, feed sf defOp st s)"
  by (cases defOp) (simp_all add: accepts_def feed_def fst_setMe prod_eq_iff)

lemma proc_all_tokens:
  "proc_all sf defOp (map Some ts) st =
     Returns (case dropWhile (accepts sf defOp st) ts of
        [] \<Rightarrow> (allgood, [], foldl (feed sf defOp) st ts)
      | bad # post \<Rightarrow>
          (\<lparr>state = invalid, op = None, val = Some bad\<rparr>, map Some post,
           foldl (feed sf defOp) st (takeWhile (accepts sf defOp st) ts @ [bad])))"
proof (induction ts arbitrary: st)
  case Nil
  then show ?case by simp
next
  case (Cons t ts)
  show ?case
  proof (cases "accepts sf defOp st t")
    case True
    then show ?thesis
      by (cases "dropWhile (accepts sf defOp st) ts")
        (simp_all add: setMe_ptr_Some Cons.IH del: dropWhile_eq_Nil_conv)
  next
    case False
    then show ?thesis
      by (simp add: setMe_ptr_Some)
  qed
qed

text \<open>
  C7. After the token \<^verbatim>\<open>-\<close> every remaining token, whatever it looks like, is fed in
  order to the setter of the default consumer. If all conversions succeed the queue is
  empty and the result Ok; otherwise the first token whose conversion fails ends the
  call with InvalidValue carrying that token, the tokens before it (and the failed
  one) having been fed, the tokens after it left in the queue.
\<close>

theorem take_everything:
  "proc cfg sf defOp (Some ''-'' # map Some ts) st =
     Returns (case dropWhile (accepts sf defOp st) ts of
        [] \<Rightarrow> (allgood, [], foldl (feed sf defOp) st ts)
      | bad # post \<Rightarrow>
          (\<lparr>state = invalid, op = None, val = Some bad\<rparr>, map Some post,
           foldl (feed sf defOp) st (takeWhile (accepts sf defOp st) ts @ [bad])))"
  by (simp add: proc_def proc_all_tokens)

section \<open>Defaults\<close>

lemma options_setMe_other:
  "j \<noteq> i \<Longrightarrow> options (snd (setMe sf i s st)) ! j = options st ! j"
  by (simp add: setMe_def Let_def)

lemma length_options_setMe [simp]:
  "length (options (snd (setMe sf i s st))) = length (options st)"
  by (simp add: setMe_def Let_def)

lemma setDefaults_body_spec:
  assumes "options s ! k = options st ! k"
  shows "setDefaults_body sf s k
     = (if \<not> seen (options st ! k) \<and> arg_d (options st ! k) \<noteq> None
        then apply_default sf st s k else s)"
  using assms by (auto simp: setDefaults_body_def apply_default_def Let_def split: option.splits)

lemma options_apply_default_other:
  "j \<noteq> i \<Longrightarrow> options (apply_default sf st s i) ! j = options s ! j"
  by (simp add: apply_default_def options_setMe_other split: option.splits)

lemma setDefaults_from_spec:
  assumes "\<forall>i\<ge>k. options s ! i = options st ! i"
  shows "setDefaults_from sf k rest s
     = foldl (apply_default sf st) s
         (filter (\<lambda>i. \<not> seen (options st ! i) \<and> arg_d (options st ! i) \<noteq> None)
            [k..<k + length rest])"
  using assms
proof (induction rest arbitrary: k s)
  case Nil
  then show ?case by simp
next
  case (Cons a rest)
  let ?s' = "setDefaults_body sf s k"
  have body: "?s' = (if \<not> seen (options st ! k) \<and> arg_d (options st ! k) \<noteq> None
        then apply_default sf st s k else s)"
    using Cons.prems by (simp add: setDefaults_body_spec)
  have inv: "\<forall>i\<ge>Suc k. options ?s' ! i = options st ! i"
    using Cons.prems by (simp add: body options_apply_default_other)
  have upt: "[k..<k + length (a # rest)] = k # [Suc k..<Suc k + length rest]"
    by (simp add: upt_conv_Cons del: upt_Suc)
  have "setDefaults_from sf k (a # rest) s = setDefaults_from sf (Suc k) rest ?s'"
    by simp
  also have "\<dots> = foldl (apply_default sf st) ?s'
         (filter (\<lambda>i. \<not> seen (options st ! i) \<and> arg_d (options st ! i) \<noteq> None)
            [Suc k..<Suc k + length rest])"
    by (rule Cons.IH [OF inv])
  also have "\<dots> = foldl (apply_default sf st) s
         (filter (\<lambda>i. \<not> seen (options st ! i) \<and> arg_d (options st ! i) \<noteq> None)
            (k # [Suc k..<Suc k + length rest]))"
    by (simp add: body)
  finally show ?case
    by (simp only: upt)
qed

lemma setDefaults_spec: "setDefaults sf st = applyDefaults_spec sf st"
  using setDefaults_from_spec [of 0 st st sf "options st"]
  by (simp add: setDefaults_def applyDefaults_spec_def defaults_due_def)

text \<open>
  C6. When \<^verbatim>\<open>populate\<close> returns, the token loop has returned the same error state in
  some state \<open>st1\<close>. If that error state is Ok (the queue has been consumed), the
  final state is \<open>st1\<close> after the setter of every descriptor that has a default string
  has been called with it if and only if its seen flag is false in \<open>st1\<close>, once each
  and in registry order; otherwise no default is applied and the final state is \<open>st1\<close>.
\<close>

theorem defaults_iff_unseen:
  assumes "populate cfg sf c argv st = Returns (r, st')"
  shows "\<exists>args st1. populate_args c argv [] = Returns args
       \<and> populate_loop cfg sf (findDefault cfg st) args st None = Returns (Some r, st1)
       \<and> st' = (if state r = ok then applyDefaults_spec sf st1 else st1)"
  using assms
  by (auto simp: populate_def setDefaults_spec split: outcome.splits option.splits prod.splits)


lemma example_short_run:
  "populate default_config no_strtof 3 [Some ''./test'', Some ''-c'', Some ''4'']
     example_start
   = Returns (allgood,
       \<lparr>options =
          [\<lparr>arg_s = None, arg_l = None, arg_h = Some ''Input file list'', arg_d = None,
             seen = False, var = 3\<rparr>,
           \<lparr>arg_s = Some ''w'', arg_l = Some ''w'', arg_h = Some ''w list'', arg_d = None,
             seen = False, var = 2\<rparr>,
           \<lparr>arg_s = Some ''c'', arg_l = Some ''count'', arg_h = Some ''Number of loops'',
             arg_d = Some ''13'', seen = True, var = 1\<rparr>,
           \<lparr>arg_s = Some ''o'', arg_l = Some ''outfile'', arg_h = Some ''Output file name'',
             arg_d = Some ''out.dat'', seen = True, var = 0\<rparr>],
        vars = (\<lambda>_. VInt 0)
          (0 := VString ''out.dat'', 1 := VInt 4, 2 := VList TInt [], 3 := VList TString [])\<rparr>)"
  by (simp add: populate_unfold example_start_def example_registry_def example_vars_def default_config_def option_def
      findDefault_def isMe_def proc_def findArg_def numArgs_def setMe_def allgood_def isDelim_def
      setDefaults_def setDefaults_body_def fun_upd_twist strtol_one_digit)

theorem defaults_iff_unseen_witness:
  "\<exists>st'. populate default_config no_strtof 3 [Some ''./test'', Some ''-c'', Some ''4'']
       example_start
     = Returns (allgood, st')
   \<and> vars st' 0 = VString ''out.dat'' \<and> vars st' 1 = VInt 4
   \<and> (\<exists>args st1.
         populate_args 3 [Some ''./test'', Some ''-c'', Some ''4''] [] = Returns args
       \<and> populate_loop default_config no_strtof
           (findDefault default_config
example_start)
           args example_start None
           = Returns (Some allgood, st1)
       \<and> st' = (if state allgood = ok then applyDefaults_spec no_strtof st1 else st1))"
proof -
  let ?S = "\<lparr>options =
          [\<lparr>arg_s = None, arg_l = None, arg_h = Some ''Input file list'', arg_d = None,
             seen = False, var = 3\<rparr>,
           \<lparr>arg_s = Some ''w'', arg_l = Some ''w'', arg_h = Some ''w list'', arg_d = None,
             seen = False, var = 2\<rparr>,
           \<lparr>arg_s = Some ''c'', arg_l = Some ''count'', arg_h = Some ''Number of loops'',
             arg_d = Some ''13'', seen = True, var = 1\<rparr>,
           \<lparr>arg_s = Some ''o'', arg_l = Some ''outfile'', arg_h = Some ''Output file name'',
             arg_d = Some ''out.dat'', seen = True, var = 0\<rparr>],
        vars = (\<lambda>_. VInt 0)
          (0 := VString ''out.dat'', 1 := VInt 4, 2 := VList TInt [], 3 := VList TString [])\<rparr>
        :: unit pstate"
  show ?thesis
    apply (rule exI [of _ ?S])
    apply (intro conjI)
       apply (rule example_short_run)
      apply simp
     apply simp
    apply (rule defaults_iff_unseen [OF example_short_run])
    done
qed

section \<open>Defaults that do not convert\<close>

lemma fromString_failed:
  assumes "\<not> fst (fromString sf v d)"
  shows "snd (fromString sf v d)
     = (case v of VInt x \<Rightarrow> VInt 0 | VFloat x \<Rightarrow> VFloat (fst (sf d)) | VBool x \<Rightarrow> VBool False
        | VString x \<Rightarrow> v | VList t x \<Rightarrow> v)"
  using assms by (cases v) (auto simp: Let_def strtol_nothing split: prod.splits)


lemma var_apply_default [simp]:
  "var (options (apply_default sf st s i) ! j) = var (options s ! j)"
  by (simp add: apply_default_def split: option.splits)

lemma var_foldl_apply_default [simp]:
  "var (options (foldl (apply_default sf st) s js) ! j) = var (options s ! j)"
  by (induction js arbitrary: s) simp_all

lemma vars_apply_default_other:
  "var (options s ! i) \<noteq> x \<Longrightarrow> vars (apply_default sf st s i) x = vars s x"
  by (simp add: apply_default_def vars_setMe split: option.splits)

lemma vars_foldl_apply_default_other:
  "\<forall>j\<in>set js. var (options s ! j) \<noteq> x \<Longrightarrow>
   vars (foldl (apply_default sf st) s js) x = vars s x"
  by (induction js arbitrary: s) (simp_all add: vars_apply_default_other)

lemma seen_setMe:
  "i < length (options st) \<Longrightarrow> seen (options (snd (setMe sf i s st)) ! i)"
  by (simp add: setMe_def Let_def)

lemma seen_setMe_mono:
  "seen (options st ! j) \<Longrightarrow> seen (options (snd (setMe sf i s st)) ! j)"
  by (cases "i < length (options st)"; cases "j = i")
    (simp_all add: setMe_def Let_def list_update_beyond)

lemma seen_foldl_apply_default:
  "seen (options s ! j) \<Longrightarrow> seen (options (foldl (apply_default sf st) s js) ! j)"
  by (induction js arbitrary: s)
    (simp_all add: apply_default_def seen_setMe_mono split: option.splits)

lemma length_foldl_apply_default [simp]:
  "length (options (foldl (apply_default sf st) s js)) = length (options s)"
  by (induction js arbitrary: s) (simp_all add: apply_default_def split: option.splits)

lemma defaults_due_split:
  assumes "i < length (options st)" "\<not> seen (options st ! i)" "arg_d (options st ! i) \<noteq> None"
  shows "defaults_due st
     = filter (\<lambda>i. \<not> seen (options st ! i) \<and> arg_d (options st ! i) \<noteq> None) [0..<i]
       @ i # filter (\<lambda>i. \<not> seen (options st ! i) \<and> arg_d (options st ! i) \<noteq> None)
               [Suc i..<length (options st)]"
proof -
  let ?n = "length (options st)"
  have "[0..<i + (?n - i)] = [0..<i] @ [i..<i + (?n - i)]"
    by (rule upt_add_eq_append) simp
  moreover have "i + (?n - i) = ?n"
    using assms(1) by simp
  ultimately have "[0..<?n] = [0..<i] @ [i..<?n]"
    by simp
  moreover have "[i..<?n] = i # [Suc i..<?n]"
    using assms(1) by (simp add: upt_conv_Cons)
  ultimately have "[0..<?n] = [0..<i] @ i # [Suc i..<?n]"
    by simp
  then show ?thesis
    using assms(2,3) by (simp add: defaults_due_def)
qed

lemma applyDefaults_spec_at:
  assumes "i < length (options st)" "\<not> seen (options st ! i)" "arg_d (options st ! i) = Some d"
    and "\<forall>j\<in>set (defaults_due st). j \<noteq> i \<longrightarrow> var (options st ! j) \<noteq> var (options st ! i)"
  shows "vars (applyDefaults_spec sf st) (var (options st ! i))
           = snd (fromString sf (vars st (var (options st ! i))) d)"
    and "seen (options (applyDefaults_spec sf st) ! i)"
proof -
  define pre where
    "pre = filter (\<lambda>i. \<not> seen (options st ! i) \<and> arg_d (options st ! i) \<noteq> None) [0..<i]"
  define post where
    "post = filter (\<lambda>i. \<not> seen (options st ! i) \<and> arg_d (options st ! i) \<noteq> None)
       [Suc i..<length (options st)]"
  define x where "x = var (options st ! i)"
  have split: "defaults_due st = pre @ i # post"
    using assms(1-3) by (simp add: defaults_due_split pre_def post_def)
  have "i \<notin> set pre" "i \<notin> set post"
    by (simp_all add: pre_def post_def)
  with assms(4) have pre: "\<forall>j\<in>set pre. var (options st ! j) \<noteq> x"
    and post: "\<forall>j\<in>set post. var (options st ! j) \<noteq> x"
    unfolding split x_def by auto
  define s1 where "s1 = foldl (apply_default sf st) st pre"
  define s2 where "s2 = apply_default sf st s1 i"
  have eq: "applyDefaults_spec sf st = foldl (apply_default sf st) s2 post"
    by (simp add: applyDefaults_spec_def split s1_def s2_def)
  have v1: "vars s1 x = vars st x"
    using pre by (simp add: s1_def vars_foldl_apply_default_other)
  have s2: "s2 = snd (setMe sf i d s1)"
    by (simp add: s2_def apply_default_def assms(3))
  have "var (options s1 ! i) = x"
    by (simp add: s1_def x_def)
  then have v2: "vars s2 x = snd (fromString sf (vars st x) d)"
    by (simp add: s2 vars_setMe v1)
  have "\<forall>j\<in>set post. var (options s2 ! j) \<noteq> x"
    using post by (simp add: s2 s1_def)
  then have "vars (foldl (apply_default sf st) s2 post) x = vars s2 x"
    by (rule vars_foldl_apply_default_other)
  then show "vars (applyDefaults_spec sf st) (var (options st ! i))
      = snd (fromString sf (vars st (var (options st ! i))) d)"
    using eq v2 by (simp add: x_def)
  have "i < length (options s1)"
    using assms(1) by (simp add: s1_def)
  then have "seen (options s2 ! i)"
    by (simp add: s2 seen_setMe)
  then have "seen (options (foldl (apply_default sf st) s2 post) ! i)"
    by (rule seen_foldl_apply_default)
  then show "seen (options (applyDefaults_spec sf st) ! i)"
    by (simp only: eq)
qed

text \<open>
  C4, as the code has it. Let the token loop end with Ok in the state \<open>st1\<close>, and let
  descriptor \<open>i\<close> be unseen there with a default string \<open>d\<close> that its converter
  rejects, no other descriptor whose default is due being bound to the same variable.
  Then \<^verbatim>\<open>populate\<close> still returns Ok, the descriptor is marked seen, and the variable
  holds what the failed converter left in it: a container is unchanged, an \<^verbatim>\<open>int\<close>
  is 0, a \<^verbatim>\<open>bool\<close> is false, a \<^verbatim>\<open>float\<close> is what \<^verbatim>\<open>strtof\<close> returned (a string
  is never rejected).
\<close>

theorem failed_default_swallowed:
  assumes "populate_args c argv [] = Returns args"
    and "populate_loop cfg sf (findDefault cfg st) args st None = Returns (Some r, st1)"
    and "state r = ok"
    and "i < length (options st1)"
    and "\<not> seen (options st1 ! i)"
    and "arg_d (options st1 ! i) = Some d"
    and "\<not> fst (fromString sf (vars st1 (var (options st1 ! i))) d)"
    and "\<forall>j\<in>set (defaults_due st1). j \<noteq> i \<longrightarrow> var (options st1 ! j) \<noteq> var (options st1 ! i)"
  shows "\<exists>st'. populate cfg sf c argv st = Returns (r, st')
       \<and> seen (options st' ! i)
       \<and> vars st' (var (options st1 ! i))
           = (case vars st1 (var (options st1 ! i)) of
                VInt x \<Rightarrow> VInt 0
              | VFloat x \<Rightarrow> VFloat (fst (sf d))
              | VBool x \<Rightarrow> VBool False
              | VString x \<Rightarrow> VString x
              | VList t x \<Rightarrow> VList t x)"
proof -
  have "populate cfg sf c argv st = Returns (r, applyDefaults_spec sf st1)"
    using assms(1-3) by (simp add: populate_def setDefaults_spec)
  moreover have "seen (options (applyDefaults_spec sf st1) ! i)"
    using assms(4-6,8) by (rule applyDefaults_spec_at(2))
  moreover have "vars (applyDefaults_spec sf st1) (var (options st1 ! i))
      = snd (fromString sf (vars st1 (var (options st1 ! i))) d)"
    using assms(4-6,8) by (rule applyDefaults_spec_at(1))
  moreover have "snd (fromString sf (vars st1 (var (options st1 ! i))) d)
      = (case vars st1 (var (options st1 ! i)) of
                VInt x \<Rightarrow> VInt 0
              | VFloat x \<Rightarrow> VFloat (fst (sf d))
              | VBool x \<Rightarrow> VBool False
              | VString x \<Rightarrow> VString x
              | VList t x \<Rightarrow> VList t x)"
    using fromString_failed [OF assms(7)] by (simp split: cval.splits)
  ultimately show ?thesis by simp
qed


lemma strtol_abc: "strtol ''abc'' = (0, 0)"
  by (simp add: strtol_def isspace_def digit_val_def)

lemma bad_default_loop:
  "populate_loop default_config no_strtof (findDefault default_config bad_default_start)
     [Some ''-v''] bad_default_start None = Returns (Some allgood, bad_default_seen)"
  by (simp add: populate_loop.simps bad_default_start_def bad_default_seen_def
      default_config_def option_def findDefault_def isMe_def proc_def findArg_def numArgs_def setMe_def allgood_def isDelim_def
      tolower_def char_of_eq_iff fun_upd_twist)

theorem failed_default_swallowed_witness:
  "populate_args 2 [Some ''./test'', Some ''-v''] [] = Returns [Some ''-v'']
   \<and> populate_loop default_config no_strtof (findDefault default_config bad_default_start)
       [Some ''-v''] bad_default_start None = Returns (Some allgood, bad_default_seen)
   \<and> state allgood = ok
   \<and> 1 < length (options bad_default_seen)
   \<and> \<not> seen (options bad_default_seen ! 1)
   \<and> arg_d (options bad_default_seen ! 1) = Some ''abc''
   \<and> \<not> fst (fromString no_strtof (vars bad_default_seen (var (options bad_default_seen ! 1))) ''abc'')
   \<and> defaults_due bad_default_seen = [1]
   \<and> (\<exists>st'. populate default_config no_strtof 2 [Some ''./test'', Some ''-v''] bad_default_start
            = Returns (allgood, st')
         \<and> seen (options st' ! 1)
         \<and> vars st' 0 = VInt 0)"
proof -
  have h1: "populate_args 2 [Some ''./test'', Some ''-v''] [] = Returns [Some ''-v'']"
    by (simp add: populate_args.simps)
  have h3: "state allgood = ok"
    by (simp add: allgood_def)
  have h4: "1 < length (options bad_default_seen)"
    and h5: "\<not> seen (options bad_default_seen ! 1)"
    and h6: "arg_d (options bad_default_seen ! 1) = Some ''abc''"
    by (simp_all add: bad_default_seen_def)
  have h7: "\<not> fst (fromString no_strtof
      (vars bad_default_seen (var (options bad_default_seen ! 1))) ''abc'')"
    by (simp add: bad_default_seen_def strtol_abc)
  have h8: "\<forall>j\<in>set (defaults_due bad_default_seen).
      j \<noteq> 1 \<longrightarrow> var (options bad_default_seen ! j) \<noteq> var (options bad_default_seen ! 1)"
    by (simp add: bad_default_seen_def defaults_due_def upt_conv_Cons)
  have "\<exists>st'. populate default_config no_strtof 2 [Some ''./test'', Some ''-v''] bad_default_start
            = Returns (allgood, st')
         \<and> seen (options st' ! 1)
         \<and> vars st' 0 = VInt 0"
    using failed_default_swallowed [OF h1 bad_default_loop h3 h4 h5 h6 h7 h8]
    by (simp add: bad_default_seen_def)
  moreover have "defaults_due bad_default_seen = [1]"
    by (simp add: bad_default_seen_def defaults_due_def upt_conv_Cons)
  ultimately show ?thesis
    using h1 bad_default_loop h3 h4 h5 h6 h7 by (intro conjI)
qed

text \<open>C4 as stated fails: \<^verbatim>\<open>count\<close> held 7 and its default \<^verbatim>\<open>abc\<close> is rejected;
  after \<^verbatim>\<open>./test -v\<close> the parse is Ok and \<^verbatim>\<open>count\<close> is 0.\<close>

theorem failed_default_counterexample:
  "vars bad_default_start 0 = VInt 7
   \<and> populate default_config no_strtof 2 [Some ''./test'', Some ''-v''] bad_default_start
     = Returns (allgood,
         \<lparr>options =
            [\<lparr>arg_s = Some ''v'', arg_l = Some ''verbose'', arg_h = None, arg_d = None,
               seen = True, var = 1\<rparr>,
             \<lparr>arg_s = Some ''c'', arg_l = Some ''count'', arg_h = Some ''Number of loops'',
               arg_d = Some ''abc'', seen = True, var = 0\<rparr>],
          vars = (\<lambda>_. VInt 7)(0 := VInt 0, 1 := VBool True)\<rparr>)"
  by (simp add: populate_unfold bad_default_start_def default_config_def option_def
      findDefault_def isMe_def proc_def findArg_def numArgs_def setMe_def allgood_def isDelim_def
      tolower_def char_of_eq_iff setDefaults_def setDefaults_body_def strtol_abc fun_upd_twist)

end
